theory Spec2Isabelle
  imports Main "HOL-Library.AList" "HOL-Library.Multiset"
begin

section \<open>exifRenamer: timestamps, collision resolution and the renaming plan\<close>

text \<open>
  A shallow embedding of \<^verbatim>\<open>exifRenamer.py\<close>.  Every function of the script that the
  properties below talk about is translated into a HOL function of the same name.
  Exceptions are values of the type \<open>error\<close>; a function that can raise returns
  \<open>error + 'a\<close> with \<open>Inl\<close> for the exception.  A Python \<^verbatim>\<open>dict\<close> is an association
  list in insertion order, updated with \<open>AList.update\<close> (a new key is appended, an
  existing key keeps its position and gets the new value), which is the behaviour of
  \<^verbatim>\<open>d[k] = v\<close>.
\<close>

subsection \<open>Exceptions\<close>

datatype error = OverflowError | ValueError | OSError

subsection \<open>\<^verbatim>\<open>datetime\<close> and \<^verbatim>\<open>timedelta(seconds=1)\<close>\<close>

text \<open>
  A naive \<^verbatim>\<open>datetime\<close> is represented by the number of microseconds elapsed since
  \<^verbatim>\<open>datetime.min\<close> (0001-01-01 00:00:00.000000).  The order of \<open>nat\<close> is the order of
  \<^verbatim>\<open>datetime\<close>, and \<^verbatim>\<open>datetime.max\<close> (9999-12-31 23:59:59.999999) is the largest
  value a \<^verbatim>\<open>datetime\<close> can hold: 3652059 days of 86400 seconds, less one microsecond.
\<close>

type_synonym datetime = nat

definition datetime_max :: datetime where
  "datetime_max = 315537897599999999"

definition second :: nat where
  "second = 1000000"

text \<open>
  \<^verbatim>\<open>time += timedelta(seconds=1)\<close>: \<^verbatim>\<open>datetime.__add__\<close> raises \<^verbatim>\<open>OverflowError\<close> when the
  sum lies after \<^verbatim>\<open>datetime.max\<close>.
\<close>

definition add_second :: "datetime \<Rightarrow> error + datetime" where
  "add_second time =
     (if time + second \<le> datetime_max then Inr (time + second) else Inl OverflowError)"

subsection \<open>The calendar: \<^verbatim>\<open>strftime('%Y-%m-%d %H:%M:%S')\<close>\<close>

definition is_leap :: "nat \<Rightarrow> bool" where
  "is_leap year = (year mod 4 = 0 \<and> (year mod 100 \<noteq> 0 \<or> year mod 400 = 0))"

definition days_before_year :: "nat \<Rightarrow> nat" where
  "days_before_year year = (let y = year - 1 in y * 365 + y div 4 - y div 100 + y div 400)"

definition DAYS_IN_MONTH :: "nat list" where
  "DAYS_IN_MONTH = [0, 31, 28, 31, 30, 31, 30, 31, 31, 30, 31, 30, 31]"

definition DAYS_BEFORE_MONTH :: "nat list" where
  "DAYS_BEFORE_MONTH = [0, 0, 31, 59, 90, 120, 151, 181, 212, 243, 273, 304, 334]"

definition days_in_month :: "nat \<Rightarrow> nat \<Rightarrow> nat" where
  "days_in_month year month =
     (if month = 2 \<and> is_leap year then 29 else DAYS_IN_MONTH ! month)"

definition days_before_month :: "nat \<Rightarrow> nat \<Rightarrow> nat" where
  "days_before_month year month =
     DAYS_BEFORE_MONTH ! month + (if month > 2 \<and> is_leap year then 1 else 0)"

definition ymd2ord :: "nat \<Rightarrow> nat \<Rightarrow> nat \<Rightarrow> nat" where
  "ymd2ord year month day = days_before_year year + days_before_month year month + day"

text \<open>
  \<^verbatim>\<open>_ord2ymd\<close> of the \<^verbatim>\<open>datetime\<close> module: the proleptic Gregorian date of the day with
  ordinal \<open>n\<close>, where day 1 is 0001-01-01.
\<close>

definition ord2ymd :: "nat \<Rightarrow> nat \<times> nat \<times> nat" where
  "ord2ymd n0 =
     (let n = n0 - 1;
          n400 = n div 146097; n = n mod 146097;
          n100 = n div 36524; n = n mod 36524;
          n4 = n div 1461; n = n mod 1461;
          n1 = n div 365; n = n mod 365;
          year = n400 * 400 + 1 + n100 * 100 + n4 * 4 + n1
      in if n1 = 4 \<or> n100 = 4 then (year - 1, 12, 31)
         else
           let leapyear = (n1 = 3 \<and> (n4 \<noteq> 24 \<or> n100 = 3));
               month = (n + 50) div 32;
               preceding = DAYS_BEFORE_MONTH ! month + (if month > 2 \<and> leapyear then 1 else 0)
           in if preceding > n
              then (year, month - 1,
                    n + (DAYS_IN_MONTH ! (month - 1)
                         + (if month - 1 = 2 \<and> leapyear then 1 else 0)) - preceding + 1)
              else (year, month, n - preceding + 1))"

definition digit :: "nat \<Rightarrow> char" where
  "digit d = ''0123456789'' ! (d mod 10)"

definition two_digits :: "nat \<Rightarrow> string" where
  "two_digits n = [digit (n div 10), digit n]"

definition four_digits :: "nat \<Rightarrow> string" where
  "four_digits n = [digit (n div 1000), digit (n div 100), digit (n div 10), digit n]"

text \<open>
  \<^verbatim>\<open>target_datetime.strftime('%Y-%m-%d %H:%M:%S')\<close>.  The format has no \<^verbatim>\<open>%f\<close>: the
  microseconds of the value do not appear in the text.  Every field is printed
  zero-padded to its width, as the documentation of \<^verbatim>\<open>strftime\<close> gives it.  The C
  library of the host prints the year: some print a year below 1000 without the
  leading zeros; from the year 1000 on the text is the same on every host.
\<close>

definition strftime :: "datetime \<Rightarrow> string" where
  "strftime t =
     (let secs = t div second;
          (year, month, day) = ord2ymd (secs div 86400 + 1);
          rem = secs mod 86400
      in four_digits year @ ''-'' @ two_digits month @ ''-'' @ two_digits day @ '' ''
         @ two_digits (rem div 3600) @ '':'' @ two_digits (rem div 60 mod 60) @ '':''
         @ two_digits (rem mod 60))"

subsection \<open>Path names: \<^verbatim>\<open>ntpath.split\<close>, \<^verbatim>\<open>os.path.splitext\<close>, \<^verbatim>\<open>os.path.join\<close>\<close>

text \<open>
  The script imports \<^verbatim>\<open>split\<close>, \<^verbatim>\<open>dirname\<close> and \<^verbatim>\<open>basename\<close> from \<^verbatim>\<open>ntpath\<close> on every
  host, and \<^verbatim>\<open>join\<close> and \<^verbatim>\<open>splitext\<close> from \<^verbatim>\<open>os.path\<close>, which is \<^verbatim>\<open>ntpath\<close> on Windows
  and \<^verbatim>\<open>posixpath\<close> elsewhere.  A string is a list of 8-bit characters, each standing
  for the character of Python with that code point, so the texts of the model are the
  texts of Python whose code points are all below 256.
\<close>

datatype platform = Windows | Posix

definition backslash :: char where
  "backslash = CHR 0x5C"

definition is_sep :: "char \<Rightarrow> bool" where
  "is_sep c = (c = backslash \<or> c = CHR ''/'')"

text \<open>
  \<^verbatim>\<open>str.upper\<close> is used once, to compare the first eight characters of a path with the
  prefix of a UNC path; only the letters \<^verbatim>\<open>u\<close>, \<^verbatim>\<open>n\<close> and \<^verbatim>\<open>c\<close> become letters of that
  prefix, so \<open>upper\<close> changes the letters a to z and leaves the rest.  \<^verbatim>\<open>str.lower\<close>
  changes A to Z and the capital letters from code point 192 to 222 (215, the
  multiplication sign, apart), each to the code point 32 above.
\<close>

definition upper :: "char \<Rightarrow> char" where
  "upper c =
     (let n = (of_char c :: nat) in if 97 \<le> n \<and> n \<le> 122 then char_of (n - 32) else c)"

definition lower :: "char \<Rightarrow> char" where
  "lower c =
     (let n = (of_char c :: nat)
      in if (65 \<le> n \<and> n \<le> 90) \<or> (192 \<le> n \<and> n \<le> 222 \<and> n \<noteq> 215)
         then char_of (n + 32) else c)"

text \<open>\<^verbatim>\<open>s.find(c, start)\<close>: the first index from \<open>start\<close> on that holds \<open>c\<close>.\<close>

definition find_from :: "char \<Rightarrow> nat \<Rightarrow> string \<Rightarrow> nat option" where
  "find_from c start s =
     (let rest = drop start s
      in if c \<in> set rest then Some (start + length (takeWhile (\<lambda>x. x \<noteq> c) rest)) else None)"

text \<open>\<^verbatim>\<open>s.rfind(c)\<close>: the last index that holds \<open>c\<close>, or \<open>-1\<close>.\<close>

definition rfind :: "char \<Rightarrow> string \<Rightarrow> int" where
  "rfind c s =
     (if c \<in> set s then int (length s) - 1 - int (length (takeWhile (\<lambda>x. x \<noteq> c) (rev s)))
      else - 1)"

definition rstrip_seps :: "string \<Rightarrow> string" where
  "rstrip_seps s = rev (dropWhile is_sep (rev s))"

definition unc_prefix :: string where
  "unc_prefix = [backslash, backslash, CHR ''?'', backslash, CHR ''U'', CHR ''N'', CHR ''C'', backslash]"

definition splitdrive :: "string \<Rightarrow> string \<times> string" where
  "splitdrive p =
     (if length p \<ge> 2 then
        let normp = map (\<lambda>c. if c = CHR ''/'' then backslash else c) p
        in if take 2 normp = [backslash, backslash] then
             let start = (if map upper (take 8 normp) = unc_prefix then 8 else 2)
             in case find_from backslash start normp of
                  None \<Rightarrow> (p, [])
                | Some index \<Rightarrow>
                    (case find_from backslash (index + 1) normp of
                       None \<Rightarrow> (p, [])
                     | Some index2 \<Rightarrow> (take index2 p, drop index2 p))
           else if take 1 (drop 1 normp) = '':'' then (take 2 p, drop 2 p)
           else ([], p)
      else ([], p))"

definition split :: "string \<Rightarrow> string \<times> string" where
  "split p0 =
     (let (d, p) = splitdrive p0;
          tail = rev (takeWhile (\<lambda>c. \<not> is_sep c) (rev p));
          head = take (length p - length tail) p;
          head = (if rstrip_seps head = [] then head else rstrip_seps head)
      in (d @ head, tail))"

definition dirname :: "string \<Rightarrow> string" where
  "dirname p = fst (split p)"

definition basename :: "string \<Rightarrow> string" where
  "basename p = snd (split p)"

text \<open>\<^verbatim>\<open>genericpath._splitext(p, sep, altsep, extsep)\<close> with \<open>extsep = '.'\<close>.\<close>

definition splitext_generic :: "string \<Rightarrow> char \<Rightarrow> char option \<Rightarrow> string \<times> string" where
  "splitext_generic p sep altsep =
     (let sepIndex = (case altsep of None \<Rightarrow> rfind sep p
                                   | Some a \<Rightarrow> max (rfind sep p) (rfind a p));
          dotIndex = rfind CHR ''.'' p
      in if dotIndex > sepIndex \<and>
            list_ex (\<lambda>c. c \<noteq> CHR ''.'')
              (take (nat (dotIndex - (sepIndex + 1))) (drop (nat (sepIndex + 1)) p))
         then (take (nat dotIndex) p, drop (nat dotIndex) p)
         else (p, []))"

definition splitext :: "platform \<Rightarrow> string \<Rightarrow> string \<times> string" where
  "splitext host p =
     (case host of
        Windows \<Rightarrow> splitext_generic p backslash (Some CHR ''/'')
      | Posix \<Rightarrow> splitext_generic p CHR ''/'' None)"

definition posix_join :: "string \<Rightarrow> string \<Rightarrow> string" where
  "posix_join a b =
     (if take 1 b = ''/'' then b
      else if a = [] \<or> last a = CHR ''/'' then a @ b
      else a @ ''/'' @ b)"

definition nt_join :: "string \<Rightarrow> string \<Rightarrow> string" where
  "nt_join path p =
     (let (result_drive, result_path) = splitdrive path;
          (p_drive, p_path) = splitdrive p;
          (result_drive, result_path) =
            (if p_path \<noteq> [] \<and> is_sep (hd p_path)
             then (if p_drive \<noteq> [] \<or> result_drive = [] then p_drive else result_drive, p_path)
             else if p_drive \<noteq> [] \<and> p_drive \<noteq> result_drive
                     \<and> map lower p_drive \<noteq> map lower result_drive
             then (p_drive, p_path)
             else
               let result_drive =
                     (if p_drive \<noteq> [] \<and> p_drive \<noteq> result_drive then p_drive else result_drive);
                   result_path =
                     (if result_path \<noteq> [] \<and> \<not> is_sep (last result_path)
                      then result_path @ [backslash] else result_path)
               in (result_drive, result_path @ p_path))
      in if result_path \<noteq> [] \<and> \<not> is_sep (hd result_path)
            \<and> result_drive \<noteq> [] \<and> last result_drive \<noteq> CHR '':''
         then result_drive @ [backslash] @ result_path
         else result_drive @ result_path)"

definition join :: "platform \<Rightarrow> string \<Rightarrow> string \<Rightarrow> string" where
  "join host a b = (case host of Windows \<Rightarrow> nt_join a b | Posix \<Rightarrow> posix_join a b)"

subsection \<open>\<^verbatim>\<open>renamed_file_name\<close>\<close>

definition renamed_file_name :: "platform \<Rightarrow> string \<Rightarrow> datetime \<Rightarrow> string" where
  "renamed_file_name host file target_datetime =
     (let (head, tail) = split file;
          dir_name = (if tail \<noteq> [] then head else dirname head);
          file_name = (if tail \<noteq> [] then tail else basename head);
          extension = snd (splitext host file_name)
      in join host dir_name (strftime target_datetime @ extension))"

subsection \<open>\<^verbatim>\<open>calculate_renamings\<close>\<close>

text \<open>
  \<open>renamings\<close> is the dictionary of the first loop: assigned instant to the file and
  the flag.  \<open>plan\<close> is the returned dictionary: file to target name and flag.
\<close>

type_synonym renamings = "(datetime \<times> (string \<times> bool)) list"

type_synonym plan = "(string \<times> (string \<times> bool)) list"

text \<open>
  The \<^verbatim>\<open>while not collision_resolved\<close> loop for one file: \<open>time\<close> advances by one second
  while it is a key of \<open>renamings\<close>; the first free instant is stored with the file and
  the flag \<^verbatim>\<open>time != original_time\<close>.  The addition can raise.
\<close>

function while_loop :: "renamings \<Rightarrow> string \<Rightarrow> datetime \<Rightarrow> datetime \<Rightarrow> error + renamings" where
  "while_loop renamings file original_time time =
     (if time \<in> set (map fst renamings)
      then (case add_second time of
              Inl e \<Rightarrow> Inl e
            | Inr time' \<Rightarrow> while_loop renamings file original_time time')
      else Inr (AList.update time (file, time \<noteq> original_time) renamings))"
  by pat_completeness auto
termination
  by (relation "measure (\<lambda>(renamings, file, original_time, time). Suc datetime_max - time)")
     (auto simp: add_second_def second_def split: if_splits)

text \<open>The \<^verbatim>\<open>for entry in sorted_info\<close> loop.\<close>

fun for_loop :: "(string \<times> datetime) list \<Rightarrow> renamings \<Rightarrow> error + renamings" where
  "for_loop [] renamings = Inr renamings"
| "for_loop ((file, original_time) # rest) renamings =
     (case while_loop renamings file original_time original_time of
        Inl e \<Rightarrow> Inl e
      | Inr renamings' \<Rightarrow> for_loop rest renamings')"

text \<open>The \<^verbatim>\<open>for entry in renamings.items()\<close> loop that builds \<open>result\<close>.\<close>

fun build_result :: "platform \<Rightarrow> renamings \<Rightarrow> plan \<Rightarrow> plan" where
  "build_result host [] result = result"
| "build_result host ((target_datetime, (file, strategy_applied)) # rest) result =
     build_result host rest
       (AList.update file (renamed_file_name host file target_datetime, strategy_applied) result)"

text \<open>
  \<^verbatim>\<open>sorted(file_to_time_map.items(), key=lambda p: p[1])\<close> is a stable sort on the
  instant; \<open>sort_key\<close> is the stable insertion sort, and a stable sort has one result.
  \<open>assign_instants\<close> is the first half of \<^verbatim>\<open>calculate_renamings\<close>, up to the dictionary
  \<open>renamings\<close>.
\<close>

definition assign_instants :: "(string \<times> datetime) list \<Rightarrow> error + renamings" where
  "assign_instants file_to_time_map =
     (let sorted_info = sort_key snd file_to_time_map in for_loop sorted_info [])"

definition calculate_renamings :: "platform \<Rightarrow> (string \<times> datetime) list \<Rightarrow> error + plan" where
  "calculate_renamings host file_to_time_map =
     (case assign_instants file_to_time_map of
        Inl e \<Rightarrow> Inl e
      | Inr renamings \<Rightarrow> Inr (build_result host renamings []))"

subsection \<open>\<^verbatim>\<open>datetime.strptime(date_time, '%Y:%m:%d %H:%M:%S')\<close>\<close>

text \<open>
  The format compiles to the regular expression
  \<^verbatim>\<open>(\d\d\d\d):(1[0-2]|0[1-9]|[1-9]):(3[0-1]|[1-2]\d|0[1-9]|[1-9]| [1-9])\s+(2[0-3]|[0-1]\d|\d):([0-5]\d|\d):(6[0-1]|[0-5]\d|\d)\<close>,
  which has to match the whole text.  Every numeric field is followed by a character
  that is no digit (or by the end), so a field is the whole run of digits found there,
  and the run has to be one that the field's alternatives accept.  The fields are then
  checked as the constructor of \<^verbatim>\<open>datetime\<close> checks them.  Every failure is a
  \<^verbatim>\<open>ValueError\<close>.  Among the code points below 256, \<^verbatim>\<open>\d\<close> matches the digits 0 to 9
  and \<^verbatim>\<open>\s\<close> matches 9 to 13, 28 to 32, 133 (next line) and 160 (no-break space).
\<close>

definition is_digit :: "char \<Rightarrow> bool" where
  "is_digit c = (let n = (of_char c :: nat) in 48 \<le> n \<and> n \<le> 57)"

definition is_space :: "char \<Rightarrow> bool" where
  "is_space c =
     (let n = (of_char c :: nat)
      in (9 \<le> n \<and> n \<le> 13) \<or> (28 \<le> n \<and> n \<le> 32) \<or> n = 133 \<or> n = 160)"

definition int_of_digits :: "string \<Rightarrow> nat" where
  "int_of_digits ds = foldl (\<lambda>a c. 10 * a + (of_char c - 48)) 0 ds"

definition field :: "(nat \<Rightarrow> nat \<Rightarrow> bool) \<Rightarrow> string \<Rightarrow> (nat \<times> string) option" where
  "field accepts s =
     (let ds = takeWhile is_digit s; v = int_of_digits ds
      in if accepts (length ds) v then Some (v, dropWhile is_digit s) else None)"

definition literal :: "char \<Rightarrow> string \<Rightarrow> string option" where
  "literal c s = (case s of [] \<Rightarrow> None | x # rest \<Rightarrow> if x = c then Some rest else None)"

definition spaces :: "string \<Rightarrow> string option" where
  "spaces s =
     (case s of [] \<Rightarrow> None
      | x # rest \<Rightarrow> if is_space x then Some (dropWhile is_space rest) else None)"

definition day_field :: "string \<Rightarrow> (nat \<times> string) option" where
  "day_field s =
     (case s of
        [] \<Rightarrow> None
      | x # rest \<Rightarrow>
          if x = CHR '' '' then field (\<lambda>l v. l = 1 \<and> 1 \<le> v) rest
          else field (\<lambda>l v. (l = 2 \<and> 1 \<le> v \<and> v \<le> 31) \<or> (l = 1 \<and> 1 \<le> v)) s)"

definition parse_fields :: "string \<Rightarrow> (nat \<times> nat \<times> nat \<times> nat \<times> nat \<times> nat) option" where
  "parse_fields s =
     Option.bind (field (\<lambda>l v. l = 4) s) (\<lambda>(Y, s).
     Option.bind (literal CHR '':'' s) (\<lambda>s.
     Option.bind (field (\<lambda>l v. (l = 2 \<and> 1 \<le> v \<and> v \<le> 12) \<or> (l = 1 \<and> 1 \<le> v)) s) (\<lambda>(m, s).
     Option.bind (literal CHR '':'' s) (\<lambda>s.
     Option.bind (day_field s) (\<lambda>(d, s).
     Option.bind (spaces s) (\<lambda>s.
     Option.bind (field (\<lambda>l v. (l = 2 \<and> v \<le> 23) \<or> l = 1) s) (\<lambda>(H, s).
     Option.bind (literal CHR '':'' s) (\<lambda>s.
     Option.bind (field (\<lambda>l v. (l = 2 \<and> v \<le> 59) \<or> l = 1) s) (\<lambda>(M, s).
     Option.bind (literal CHR '':'' s) (\<lambda>s.
     Option.bind (field (\<lambda>l v. (l = 2 \<and> v \<le> 61) \<or> l = 1) s) (\<lambda>(S, s).
     if s = [] then Some (Y, m, d, H, M, S) else None)))))))))))"

definition strptime :: "string \<Rightarrow> error + datetime" where
  "strptime date_time =
     (case parse_fields date_time of
        None \<Rightarrow> Inl ValueError
      | Some (Y, m, d, H, M, S) \<Rightarrow>
          if Y < 1 \<or> d > days_in_month Y m \<or> S > 59 then Inl ValueError
          else Inr ((((ymd2ord Y m d - 1) * 86400) + H * 3600 + M * 60 + S) * second))"

subsection \<open>The files: EXIF tags and \<^verbatim>\<open>stat\<close>\<close>

text \<open>
  What the script reads of a file.  \<open>exif_tags\<close> is the dictionary returned by
  \<^verbatim>\<open>exifread.process_file\<close>, each tag with its \<^verbatim>\<open>printable\<close> text.  The three times are
  the timestamps as the file system reports them: \<^verbatim>\<open>getctime(file)\<close>,
  \<^verbatim>\<open>stats.st_birthtime\<close> and \<^verbatim>\<open>stats.st_mtime\<close>, of a type \<open>'ts\<close> that stands for the
  numbers of Python; \<open>st_birthtime\<close> is \<open>None\<close> where the result of \<^verbatim>\<open>stat\<close> has no
  such attribute (\<^verbatim>\<open>AttributeError\<close>).  A path that is not in the file system cannot
  be opened or examined: \<^verbatim>\<open>OSError\<close>.

  \<^verbatim>\<open>datetime.fromtimestamp\<close> turns a timestamp into the \<^verbatim>\<open>datetime\<close> of the local time
  zone, and raises \<^verbatim>\<open>OverflowError\<close>, \<^verbatim>\<open>OSError\<close> or \<^verbatim>\<open>ValueError\<close> for a timestamp that
  the platform or \<^verbatim>\<open>datetime\<close> cannot represent.  It belongs to the host, and the
  functions below take it as the parameter \<open>fromtimestamp\<close>.
\<close>

record 'ts file_info =
  exif_tags :: "(string \<times> string) list"
  st_ctime :: 'ts
  st_birthtime :: "'ts option"
  st_mtime :: 'ts

type_synonym 'ts filesystem = "string \<Rightarrow> 'ts file_info option"

definition EXIF_DATE_TIME_ORIGINAL :: string where
  "EXIF_DATE_TIME_ORIGINAL = ''EXIF DateTimeOriginal''"

definition image_extensions :: "string list" where
  "image_extensions = [''.jpg'', ''.jpeg'']"

definition video_extensions :: "string list" where
  "video_extensions = [''.mp4'', ''.mov'', ''.avi'']"

definition endswith :: "string \<Rightarrow> string \<Rightarrow> bool" where
  "endswith s ext = (length ext \<le> length s \<and> drop (length s - length ext) s = ext)"

definition has_extension :: "string \<Rightarrow> string list \<Rightarrow> bool" where
  "has_extension file extensions = list_ex (\<lambda>ext. endswith (map lower file) ext) extensions"

definition is_image :: "string \<Rightarrow> bool" where
  "is_image file = has_extension file image_extensions"

definition is_video :: "string \<Rightarrow> bool" where
  "is_video file = has_extension file video_extensions"

definition creation_time ::
    "('ts \<Rightarrow> error + datetime) \<Rightarrow> platform \<Rightarrow> 'ts filesystem \<Rightarrow> string \<Rightarrow> error + datetime" where
  "creation_time fromtimestamp host fs file =
     (case fs file of
        None \<Rightarrow> Inl OSError
      | Some stats \<Rightarrow>
          (case host of
             Windows \<Rightarrow> fromtimestamp (st_ctime stats)
           | Posix \<Rightarrow>
               (case st_birthtime stats of
                  Some birthtime \<Rightarrow> fromtimestamp birthtime
                | None \<Rightarrow> fromtimestamp (st_mtime stats))))"

definition exif_creation_time :: "'ts filesystem \<Rightarrow> string \<Rightarrow> error + datetime option" where
  "exif_creation_time fs file =
     (case fs file of
        None \<Rightarrow> Inl OSError
      | Some image_file \<Rightarrow>
          (case map_of (exif_tags image_file) EXIF_DATE_TIME_ORIGINAL of
             None \<Rightarrow> Inr None
           | Some date_time \<Rightarrow>
               (case strptime date_time of
                  Inl e \<Rightarrow> Inl e
                | Inr t \<Rightarrow> Inr (Some t))))"

definition exif_time_else_creation_time ::
    "('ts \<Rightarrow> error + datetime) \<Rightarrow> platform \<Rightarrow> 'ts filesystem \<Rightarrow> string \<Rightarrow> error + datetime" where
  "exif_time_else_creation_time fromtimestamp host fs file =
     (case exif_creation_time fs file of
        Inl e \<Rightarrow> Inl e
      | Inr exif_info \<Rightarrow>
          (case exif_info of
             None \<Rightarrow> creation_time fromtimestamp host fs file
           | Some t \<Rightarrow> Inr t))"

text \<open>
  The two loops of \<^verbatim>\<open>main\<close> that fill \<^verbatim>\<open>images_info_map\<close> and \<^verbatim>\<open>video_files_map\<close>: each
  file gets the instant that \<open>resolve\<close> returns, and the first exception ends the run.
\<close>

fun info_loop ::
    "(string \<Rightarrow> error + datetime) \<Rightarrow> string list \<Rightarrow> (string \<times> datetime) list
     \<Rightarrow> error + (string \<times> datetime) list" where
  "info_loop resolve [] info_map = Inr info_map"
| "info_loop resolve (file # files) info_map =
     (case resolve file of
        Inl e \<Rightarrow> Inl e
      | Inr t \<Rightarrow> info_loop resolve files (AList.update file t info_map))"

definition images_info_map ::
    "('ts \<Rightarrow> error + datetime) \<Rightarrow> platform \<Rightarrow> 'ts filesystem \<Rightarrow> string list
     \<Rightarrow> error + (string \<times> datetime) list" where
  "images_info_map fromtimestamp host fs files =
     info_loop (exif_time_else_creation_time fromtimestamp host fs) (filter is_image files) []"

definition video_files_map ::
    "('ts \<Rightarrow> error + datetime) \<Rightarrow> platform \<Rightarrow> 'ts filesystem \<Rightarrow> string list
     \<Rightarrow> error + (string \<times> datetime) list" where
  "video_files_map fromtimestamp host fs files =
     info_loop (creation_time fromtimestamp host fs) (filter is_video files) []"

subsection \<open>Relating the dictionaries to the input\<close>

text \<open>
  \<open>entry_of x z\<close>: the entry \<open>z\<close> of \<open>renamings\<close> is the one made for the input pair \<open>x\<close>:
  it names the file of \<open>x\<close>, its instant is the instant of \<open>x\<close> advanced by a whole number
  of seconds, and its flag tells whether the two instants differ.
\<close>

definition entry_of :: "string \<times> datetime \<Rightarrow> datetime \<times> (string \<times> bool) \<Rightarrow> bool" where
  "entry_of x z \<longleftrightarrow> fst (snd z) = fst x \<and> snd (snd z) = (fst z \<noteq> snd x)
      \<and> (\<exists>k. fst z = snd x + k * second)"

text \<open>The entry of the plan that the second loop makes from an entry of \<open>renamings\<close>.\<close>

definition plan_entry :: "platform \<Rightarrow> datetime \<times> (string \<times> bool) \<Rightarrow> string \<times> (string \<times> bool)" where
  "plan_entry host z = (fst (snd z), (renamed_file_name host (fst (snd z)) (fst z), snd (snd z)))"

section \<open>Properties\<close>

declare while_loop.simps [simp del]

lemmas path_simps = renamed_file_name_def split_def splitdrive_def splitext_def
  splitext_generic_def join_def posix_join_def dirname_def basename_def rfind_def
  find_from_def rstrip_seps_def is_sep_def backslash_def Let_def

lemmas time_simps = strftime_def ord2ymd_def second_def DAYS_BEFORE_MONTH_def DAYS_IN_MONTH_def
  four_digits_def two_digits_def digit_def add_second_def datetime_max_def

lemmas plan_simps = calculate_renamings_def assign_instants_def while_loop.simps

subsection \<open>The collision loop\<close>

lemma update_fresh: "k \<notin> fst ` set al \<Longrightarrow> AList.update k v al = al @ [(k, v)]"
  by (induction al) auto

lemma while_loop_Inr:
  "while_loop r f t0 t = Inr r' \<Longrightarrow>
     \<exists>k. r' = r @ [(t + k * second, (f, t + k * second \<noteq> t0))]
       \<and> t + k * second \<notin> fst ` set r
       \<and> (\<forall>j<k. t + j * second \<in> fst ` set r)"
proof (induction r f t0 t rule: while_loop.induct)
  case (1 r f t0 t)
  show ?case
  proof (cases "t \<in> set (map fst r)")
    case False
    with "1.prems" have "r' = r @ [(t, (f, t \<noteq> t0))]"
      by (simp add: while_loop.simps update_fresh)
    with False show ?thesis
      by (intro exI[of _ 0]) simp
  next
    case True
    with "1.prems" obtain t' where a: "add_second t = Inr t'"
      and w: "while_loop r f t0 t' = Inr r'"
      by (auto simp: while_loop.simps split: sum.splits)
    from a have t': "t' = t + second"
      by (auto simp: add_second_def split: if_splits)
    from "1.IH"[OF True a w] obtain k where
      k: "r' = r @ [(t' + k * second, (f, t' + k * second \<noteq> t0))]"
         "t' + k * second \<notin> fst ` set r"
         "\<forall>j<k. t' + j * second \<in> fst ` set r"
      by blast
    have "\<forall>j<Suc k. t + j * second \<in> fst ` set r"
    proof (intro allI impI)
      fix j assume "j < Suc k"
      show "t + j * second \<in> fst ` set r"
      proof (cases j)
        case 0
        with True show ?thesis by simp
      next
        case (Suc i)
        with \<open>j < Suc k\<close> k(3) have "t' + i * second \<in> fst ` set r" by simp
        with Suc t' show ?thesis by (simp add: algebra_simps)
      qed
    qed
    with k t' show ?thesis
      by (intro exI[of _ "Suc k"]) (simp add: algebra_simps)
  qed
qed

lemma while_loop_error: "while_loop r f t0 t = Inl e \<Longrightarrow> e = OverflowError"
proof (induction r f t0 t rule: while_loop.induct)
  case (1 r f t0 t)
  then show ?case
    by (cases "t \<in> set (map fst r)")
       (auto simp: while_loop.simps add_second_def split: sum.splits if_splits)
qed

lemma for_loop_error: "for_loop xs r = Inl e \<Longrightarrow> e = OverflowError"
proof (induction xs arbitrary: r)
  case Nil
  then show ?case by simp
next
  case (Cons x xs)
  obtain f t0 where x: "x = (f, t0)" by (cases x)
  from Cons x show ?case
    by (auto split: sum.splits dest: while_loop_error)
qed

lemma for_loop_append:
  "for_loop (xs @ ys) r = (case for_loop xs r of Inl e \<Rightarrow> Inl e | Inr r' \<Rightarrow> for_loop ys r')"
proof (induction xs arbitrary: r)
  case Nil
  then show ?case by simp
next
  case (Cons x xs)
  obtain f t0 where x: "x = (f, t0)" by (cases x)
  from Cons x show ?case
    by (simp split: sum.splits)
qed

lemma for_loop_Inr:
  "for_loop xs r = Inr r' \<Longrightarrow> distinct (map fst r) \<Longrightarrow>
     \<exists>zs. r' = r @ zs \<and> list_all2 entry_of xs zs \<and> distinct (map fst r')"
proof (induction xs arbitrary: r)
  case Nil
  then show ?case by simp
next
  case (Cons x xs)
  obtain f t0 where x: "x = (f, t0)" by (cases x)
  from Cons.prems x obtain r1 where w: "while_loop r f t0 t0 = Inr r1"
    and l: "for_loop xs r1 = Inr r'"
    by (auto split: sum.splits)
  from while_loop_Inr[OF w] obtain k where
    k: "r1 = r @ [(t0 + k * second, (f, t0 + k * second \<noteq> t0))]"
       "t0 + k * second \<notin> fst ` set r"
    by blast
  with Cons.prems(2) have d: "distinct (map fst r1)" by simp
  from Cons.IH[OF l d] obtain zs where
    zs: "r' = r1 @ zs" "list_all2 entry_of xs zs" "distinct (map fst r')"
    by blast
  have "entry_of x (t0 + k * second, (f, t0 + k * second \<noteq> t0))"
    unfolding entry_of_def x by auto
  with zs k(1) show ?case
    by (intro exI[of _ "(t0 + k * second, (f, t0 + k * second \<noteq> t0)) # zs"]) simp
qed


lemma build_result_fresh:
  "distinct (map (\<lambda>z. fst (snd z)) r) \<Longrightarrow> set (map (\<lambda>z. fst (snd z)) r) \<inter> fst ` set acc = {} \<Longrightarrow>
     build_result host r acc = acc @ map (plan_entry host) r"
proof (induction r arbitrary: acc)
  case Nil
  then show ?case by simp
next
  case (Cons z r)
  obtain t f flag where z: "z = (t, (f, flag))" by (cases z) auto
  from Cons.prems z have fresh: "f \<notin> fst ` set acc" by auto
  have i: "set (map (\<lambda>z. fst (snd z)) r) \<inter> fst ` set (acc @ [(f, (renamed_file_name host f t, flag))]) = {}"
    using Cons.prems z by auto
  from Cons.prems have d: "distinct (map (\<lambda>z. fst (snd z)) r)" by simp
  have "build_result host r (acc @ [(f, (renamed_file_name host f t, flag))])
      = (acc @ [(f, (renamed_file_name host f t, flag))]) @ map (plan_entry host) r"
    by (rule Cons.IH[OF d i])
  with fresh z show ?case
    by (simp add: update_fresh plan_entry_def)
qed

lemma entry_of_files: "list_all2 entry_of xs zs \<Longrightarrow> map (\<lambda>z. fst (snd z)) zs = map fst xs"
  by (induction rule: list_all2_induct) (auto simp: entry_of_def)

lemma assign_instants_Inr:
  assumes "assign_instants m = Inr r"
  shows "list_all2 entry_of (sort_key snd m) r" and "distinct (map fst r)"
proof -
  from assms have "for_loop (sort_key snd m) [] = Inr r"
    by (simp add: assign_instants_def)
  from for_loop_Inr[OF this] show "list_all2 entry_of (sort_key snd m) r" and "distinct (map fst r)"
    by auto
qed

lemma calculate_renamings_Inr:
  assumes "distinct (map fst m)" and "calculate_renamings host m = Inr plan"
  obtains r where "assign_instants m = Inr r" and "plan = map (plan_entry host) r"
    and "list_all2 entry_of (sort_key snd m) r" and "distinct (map fst r)"
proof -
  from assms(2) obtain r where r: "assign_instants m = Inr r" and p: "plan = build_result host r []"
    by (auto simp: calculate_renamings_def split: sum.splits)
  note e = assign_instants_Inr[OF r]
  have "map (\<lambda>z. fst (snd z)) r = map fst (sort_key snd m)"
    by (rule entry_of_files[OF e(1)])
  moreover have "distinct (map fst (sort_key snd m))"
    using assms(1) by (simp add: distinct_map)
  ultimately have "distinct (map (\<lambda>z. fst (snd z)) r)" by simp
  then have "build_result host r [] = [] @ map (plan_entry host) r"
    by (rule build_result_fresh) simp
  with p have "plan = map (plan_entry host) r" by simp
  with r e that show thesis by blast
qed

lemma for_loop_distinct:
  "distinct (map snd xs) \<Longrightarrow> snd ` set xs \<inter> fst ` set r = {} \<Longrightarrow>
     for_loop xs r = Inr (r @ map (\<lambda>x. (snd x, (fst x, False))) xs)"
proof (induction xs arbitrary: r)
  case Nil
  then show ?case by simp
next
  case (Cons x xs)
  obtain f t0 where x: "x = (f, t0)" by (cases x)
  from Cons.prems x have fresh: "t0 \<notin> fst ` set r" by auto
  then have w: "while_loop r f t0 t0 = Inr (r @ [(t0, (f, False))])"
    by (simp add: while_loop.simps update_fresh)
  from Cons.prems x have d: "distinct (map snd xs)"
    and i: "snd ` set xs \<inter> fst ` set (r @ [(t0, (f, False))]) = {}"
    by auto
  from Cons.IH[OF d i] w x show ?case by simp
qed

lemma while_loop_total:
  "t + card {k \<in> fst ` set r. t \<le> k} * second \<le> datetime_max \<Longrightarrow>
     \<exists>r'. while_loop r f t0 t = Inr r'"
proof (induction r f t0 t rule: while_loop.induct)
  case (1 r f t0 t)
  show ?case
  proof (cases "t \<in> set (map fst r)")
    case False
    then show ?thesis by (simp add: while_loop.simps)
  next
    case True
    let ?A = "{k \<in> fst ` set r. t \<le> k}"
    let ?B = "{k \<in> fst ` set r. t + second \<le> k}"
    have fin: "finite ?A" by simp
    from True have "t \<in> ?A" by simp
    moreover have "t \<notin> ?B" by (simp add: second_def)
    moreover have "?B \<subseteq> ?A" by auto
    ultimately have "?B \<subset> ?A" by blast
    with fin have "card ?B < card ?A" by (rule psubset_card_mono)
    then have "Suc (card ?B) \<le> card ?A" by simp
    then have "Suc (card ?B) * second \<le> card ?A * second" by (rule mult_le_mono1)
    with "1.prems" have b: "t + second + card ?B * second \<le> datetime_max" by simp
    then have a: "add_second t = Inr (t + second)"
      by (simp add: add_second_def)
    from "1.IH"[OF True a b] obtain r' where "while_loop r f t0 (t + second) = Inr r'" ..
    with True a show ?thesis
      by (simp add: while_loop.simps)
  qed
qed

lemma for_loop_total:
  "\<forall>x\<in>set xs. snd x + (length r + length xs - 1) * second \<le> datetime_max \<Longrightarrow>
     \<exists>r'. for_loop xs r = Inr r'"
proof (induction xs arbitrary: r)
  case Nil
  then show ?case by simp
next
  case (Cons x xs)
  obtain f t0 where x: "x = (f, t0)" by (cases x)
  from Cons.prems x have b: "t0 + (length r + length xs) * second \<le> datetime_max" by simp
  have "card {k \<in> fst ` set r. t0 \<le> k} \<le> card (fst ` set r)"
    by (rule card_mono) auto
  also have "\<dots> \<le> card (set r)" by (rule card_image_le) simp
  also have "\<dots> \<le> length r" by (rule card_length)
  finally have "card {k \<in> fst ` set r. t0 \<le> k} \<le> length r + length xs" by simp
  then have "card {k \<in> fst ` set r. t0 \<le> k} * second \<le> (length r + length xs) * second"
    by (rule mult_le_mono1)
  with b have "t0 + card {k \<in> fst ` set r. t0 \<le> k} * second \<le> datetime_max" by linarith
  from while_loop_total[OF this] obtain r1 where w: "while_loop r f t0 t0 = Inr r1" ..
  from while_loop_Inr[OF w] have l: "length r1 = Suc (length r)" by auto
  have "\<forall>x\<in>set xs. snd x + (length r1 + length xs - 1) * second \<le> datetime_max"
    using Cons.prems by (simp add: l)
  from Cons.IH[OF this] obtain r' where "for_loop xs r1 = Inr r'" ..
  with w x show ?case by simp
qed

lemma assigned_entry:
  assumes "distinct (map fst m)" and "assign_instants m = Inr renamings"
    and "(t, (file, flag)) \<in> set renamings"
  shows "\<exists>t0. map_of m file = Some t0 \<and> flag = (t \<noteq> t0) \<and> (flag \<longrightarrow> t0 < t)"
proof -
  from assign_instants_Inr(1)[OF assms(2)] have "list_all2 entry_of (sort_key snd m) renamings" .
  moreover from assms(3) obtain i where "i < length renamings" and "renamings ! i = (t, (file, flag))"
    by (auto simp: in_set_conv_nth)
  ultimately have "i < length (sort_key snd m)"
    and e: "entry_of (sort_key snd m ! i) (t, (file, flag))"
    by (auto simp: list_all2_conv_all_nth)
  then obtain x where x: "x \<in> set (sort_key snd m)" and e: "entry_of x (t, (file, flag))"
    using nth_mem by blast
  from e obtain k where "fst x = file" and f: "flag = (t \<noteq> snd x)" and t: "t = snd x + k * second"
    by (auto simp: entry_of_def)
  with x have "(file, snd x) \<in> set m" by auto
  with assms(1) have "map_of m file = Some (snd x)" by simp
  moreover from t f have "flag \<longrightarrow> snd x < t" by auto
  ultimately show ?thesis using f by blast
qed



subsection \<open>The plan\<close>

text \<open>
  Claim C5 (forward-only displacement).  Take a mapping with pairwise distinct files for
  which \<open>calculate_renamings\<close> returns a plan, and any entry of that plan.  The entry
  belongs to one entry of the dictionary \<open>renamings\<close>: the file was assigned an instant
  \<open>t\<close>, the target name is the name made from \<open>t\<close>, and the flag is true exactly when
  \<open>t\<close> differs from the file's own instant \<open>t0\<close>.  When the flag is true, \<open>t\<close> is
  strictly later than \<open>t0\<close>.
\<close>

theorem forward_only_displacement:
  assumes "distinct (map fst m)"
    and "calculate_renamings host m = Inr plan"
    and "(file, (target_name, collision_flag)) \<in> set plan"
  shows "\<exists>renamings t0 t.
           assign_instants m = Inr renamings
         \<and> (t, (file, collision_flag)) \<in> set renamings
         \<and> map_of m file = Some t0
         \<and> target_name = renamed_file_name host file t
         \<and> collision_flag = (t \<noteq> t0)
         \<and> (collision_flag \<longrightarrow> t0 < t)"
proof -
  from assms(1,2) obtain r where r: "assign_instants m = Inr r"
    and p: "plan = map (plan_entry host) r"
    by (rule calculate_renamings_Inr)
  from assms(3) p obtain z where z: "z \<in> set r"
    and e: "plan_entry host z = (file, (target_name, collision_flag))"
    by auto
  obtain t f flag where zt: "z = (t, (f, flag))" by (cases z) auto
  with e have f: "f = file" "flag = collision_flag"
    and n: "target_name = renamed_file_name host file t"
    by (auto simp: plan_entry_def)
  with z zt have m: "(t, (file, collision_flag)) \<in> set r" by simp
  from assigned_entry[OF assms(1) r m] obtain t0 where
    "map_of m file = Some t0" "collision_flag = (t \<noteq> t0)" "collision_flag \<longrightarrow> t0 < t"
    by blast
  with r m n show ?thesis by blast
qed

theorem forward_only_displacement_witness:
  "distinct (map fst [(''a.jpg'', 63713469600000000::nat), (''b.jpg'', 63713469600000000)])
   \<and> calculate_renamings Posix [(''a.jpg'', 63713469600000000), (''b.jpg'', 63713469600000000)]
       = Inr [(''a.jpg'', (''2020-01-01 10:00:00.jpg'', False)),
              (''b.jpg'', (''2020-01-01 10:00:01.jpg'', True))]
   \<and> (''b.jpg'', (''2020-01-01 10:00:01.jpg'', True))
       \<in> set [(''a.jpg'', (''2020-01-01 10:00:00.jpg'', False)),
              (''b.jpg'', (''2020-01-01 10:00:01.jpg'', True))]
   \<and> (\<exists>renamings t0 t.
           assign_instants [(''a.jpg'', 63713469600000000), (''b.jpg'', 63713469600000000)] = Inr renamings
         \<and> (t, (''b.jpg'', True)) \<in> set renamings
         \<and> map_of [(''a.jpg'', 63713469600000000), (''b.jpg'', 63713469600000000)] ''b.jpg'' = Some t0
         \<and> ''2020-01-01 10:00:01.jpg'' = renamed_file_name Posix ''b.jpg'' t
         \<and> True = (t \<noteq> t0)
         \<and> (True \<longrightarrow> t0 < t))"
proof -
  have h1: "distinct (map fst [(''a.jpg'', 63713469600000000::nat), (''b.jpg'', 63713469600000000)])"
    by simp
  have h2: "calculate_renamings Posix [(''a.jpg'', 63713469600000000), (''b.jpg'', 63713469600000000)]
       = Inr [(''a.jpg'', (''2020-01-01 10:00:00.jpg'', False)),
              (''b.jpg'', (''2020-01-01 10:00:01.jpg'', True))]"
    by (simp add: plan_simps path_simps time_simps)
  have h3: "(''b.jpg'', (''2020-01-01 10:00:01.jpg'', True))
       \<in> set [(''a.jpg'', (''2020-01-01 10:00:00.jpg'', False)),
              (''b.jpg'', (''2020-01-01 10:00:01.jpg'', True))]"
    by simp
  show ?thesis
    by (rule conjI[OF h1 conjI[OF h2 conjI[OF h3 forward_only_displacement[OF h1 h2 h3]]]])
qed


text \<open>
  Claim C10 (the plan has the files of the input).  For a mapping with pairwise distinct
  files for which \<open>calculate_renamings\<close> returns a plan, the files of the plan are
  exactly the files of the mapping, no file occurs twice in the plan, and the plan has
  as many entries as the mapping.
\<close>

theorem plan_domain_preservation:
  assumes "distinct (map fst m)" and "calculate_renamings host m = Inr plan"
  shows "set (map fst plan) = set (map fst m) \<and> distinct (map fst plan) \<and> length plan = length m"
proof -
  from assms obtain r where r: "plan = map (plan_entry host) r"
    and e: "list_all2 entry_of (sort_key snd m) r"
    by (rule calculate_renamings_Inr)
  have "map fst plan = map (\<lambda>z. fst (snd z)) r"
    by (simp add: r plan_entry_def)
  also have "\<dots> = map fst (sort_key snd m)"
    by (rule entry_of_files[OF e])
  finally have k: "map fst plan = map fst (sort_key snd m)" .
  have "set (map fst plan) = set (map fst m)"
    by (simp add: k)
  moreover have "distinct (map fst plan)"
    using assms(1) by (simp add: k distinct_map)
  moreover have "length (map fst plan) = length (map fst (sort_key snd m))"
    by (simp only: k)
  then have "length plan = length m" by simp
  ultimately show ?thesis by blast
qed

theorem plan_domain_preservation_witness:
  "distinct (map fst [(''a.jpg'', 63713469600000000::nat), (''b.jpg'', 63713469600000000)])
   \<and> calculate_renamings Posix [(''a.jpg'', 63713469600000000), (''b.jpg'', 63713469600000000)]
       = Inr [(''a.jpg'', (''2020-01-01 10:00:00.jpg'', False)),
              (''b.jpg'', (''2020-01-01 10:00:01.jpg'', True))]
   \<and> (set (map fst [(''a.jpg'', (''2020-01-01 10:00:00.jpg'', False)),
                     (''b.jpg'', (''2020-01-01 10:00:01.jpg'', True))])
         = set (map fst [(''a.jpg'', 63713469600000000::nat), (''b.jpg'', 63713469600000000)])
      \<and> distinct (map fst [(''a.jpg'', (''2020-01-01 10:00:00.jpg'', False)),
                            (''b.jpg'', (''2020-01-01 10:00:01.jpg'', True))])
      \<and> length [(''a.jpg'', (''2020-01-01 10:00:00.jpg'', False)),
                 (''b.jpg'', (''2020-01-01 10:00:01.jpg'', True))]
         = length [(''a.jpg'', 63713469600000000::nat), (''b.jpg'', 63713469600000000)])"
proof -
  have h1: "distinct (map fst [(''a.jpg'', 63713469600000000::nat), (''b.jpg'', 63713469600000000)])"
    by simp
  have h2: "calculate_renamings Posix [(''a.jpg'', 63713469600000000), (''b.jpg'', 63713469600000000)]
       = Inr [(''a.jpg'', (''2020-01-01 10:00:00.jpg'', False)),
              (''b.jpg'', (''2020-01-01 10:00:01.jpg'', True))]"
    by (simp add: plan_simps path_simps time_simps)
  show ?thesis
    by (rule conjI[OF h1 conjI[OF h2 plan_domain_preservation[OF h1 h2]]])
qed

text \<open>
  Claim C6 (no-collision passthrough).  For a mapping with pairwise distinct files and
  pairwise distinct instants, \<open>calculate_renamings\<close> returns a plan, and the plan lists
  the files in the order of their instants, each with the flag false and with the name
  that \<open>renamed_file_name\<close> makes from the file and its own instant.
\<close>

theorem no_collision_passthrough:
  assumes "distinct (map fst m)" and "distinct (map snd m)"
  shows "calculate_renamings host m =
     Inr (map (\<lambda>x. (fst x, (renamed_file_name host (fst x) (snd x), False))) (sort_key snd m))"
proof -
  let ?s = "sort_key snd m"
  from assms(2) have "distinct (map snd ?s)"
    by (simp add: distinct_map)
  then have "for_loop ?s [] = Inr ([] @ map (\<lambda>x. (snd x, (fst x, False))) ?s)"
    by (rule for_loop_distinct) simp
  then have a: "assign_instants m = Inr (map (\<lambda>x. (snd x, (fst x, False))) ?s)"
    by (simp add: assign_instants_def)
  from assms(1) have "distinct (map fst ?s)"
    by (simp add: distinct_map)
  then have "distinct (map (\<lambda>z. fst (snd z)) (map (\<lambda>x. (snd x, (fst x, False))) ?s))"
    by (simp add: comp_def)
  then have "build_result host (map (\<lambda>x. (snd x, (fst x, False))) ?s) []
      = [] @ map (plan_entry host) (map (\<lambda>x. (snd x, (fst x, False))) ?s)"
    by (rule build_result_fresh) simp
  with a show ?thesis
    by (simp add: calculate_renamings_def plan_entry_def comp_def)
qed

theorem no_collision_passthrough_witness:
  "distinct (map fst [(''b.jpg'', 63713469601000000::nat), (''a.jpg'', 63713469600000000)])
   \<and> distinct (map snd [(''b.jpg'', 63713469601000000::nat), (''a.jpg'', 63713469600000000)])
   \<and> calculate_renamings Posix [(''b.jpg'', 63713469601000000), (''a.jpg'', 63713469600000000)]
       = Inr [(''a.jpg'', (''2020-01-01 10:00:00.jpg'', False)),
              (''b.jpg'', (''2020-01-01 10:00:01.jpg'', False))]"
proof -
  have h1: "distinct (map fst [(''b.jpg'', 63713469601000000::nat), (''a.jpg'', 63713469600000000)])"
    by simp
  have h2: "distinct (map snd [(''b.jpg'', 63713469601000000::nat), (''a.jpg'', 63713469600000000)])"
    by simp
  have e: "map (\<lambda>x. (fst x, (renamed_file_name Posix (fst x) (snd x), False)))
             (sort_key snd [(''b.jpg'', 63713469601000000::nat), (''a.jpg'', 63713469600000000)])
           = [(''a.jpg'', (renamed_file_name Posix ''a.jpg'' 63713469600000000, False)),
              (''b.jpg'', (renamed_file_name Posix ''b.jpg'' 63713469601000000, False))]"
    by simp
  have n1: "renamed_file_name Posix ''a.jpg'' 63713469600000000 = ''2020-01-01 10:00:00.jpg''"
    by (simp add: path_simps time_simps)
  have n2: "renamed_file_name Posix ''b.jpg'' 63713469601000000 = ''2020-01-01 10:00:01.jpg''"
    by (simp add: path_simps time_simps)
  have c: "calculate_renamings Posix [(''b.jpg'', 63713469601000000), (''a.jpg'', 63713469600000000)]
       = Inr [(''a.jpg'', (''2020-01-01 10:00:00.jpg'', False)),
              (''b.jpg'', (''2020-01-01 10:00:01.jpg'', False))]"
    by (simp only: no_collision_passthrough[OF h1 h2] e n1 n2)
  show ?thesis
    by (rule conjI[OF h1 conjI[OF h2 c]])
qed

text \<open>
  Claim C9 (totality of the planner), as the code has it.  \<open>calculate_renamings\<close> is a
  total function: both loops end for every mapping.  It returns a plan whenever every
  instant of the mapping can be advanced by as many seconds as there are other files
  without passing \<^verbatim>\<open>datetime.max\<close>; when it does not return a plan, it raises
  \<^verbatim>\<open>OverflowError\<close>; and the empty mapping gives the empty plan.
\<close>

theorem planner_totality:
  "((\<forall>x\<in>set m. snd x + (length m - 1) * second \<le> datetime_max)
      \<longrightarrow> (\<exists>plan. calculate_renamings host m = Inr plan))
   \<and> (calculate_renamings host m = Inl e \<longrightarrow> e = OverflowError)
   \<and> calculate_renamings host [] = Inr []"
proof (intro conjI impI)
  assume "\<forall>x\<in>set m. snd x + (length m - 1) * second \<le> datetime_max"
  then have "\<forall>x\<in>set (sort_key snd m).
      snd x + (length ([] :: renamings) + length (sort_key snd m) - 1) * second \<le> datetime_max"
    by simp
  from for_loop_total[OF this] obtain r where "for_loop (sort_key snd m) [] = Inr r" ..
  then show "\<exists>plan. calculate_renamings host m = Inr plan"
    by (simp add: calculate_renamings_def assign_instants_def)
next
  assume "calculate_renamings host m = Inl e"
  then have "for_loop (sort_key snd m) [] = Inl e"
    by (simp add: calculate_renamings_def assign_instants_def split: sum.splits)
  then show "e = OverflowError" by (rule for_loop_error)
next
  show "calculate_renamings host [] = Inr []"
    by (simp add: calculate_renamings_def assign_instants_def)
qed

theorem planner_totality_witness:
  "(0::nat) + (length [(''a.jpg'', 0::nat), (''b.jpg'', 0)] - 1) * second \<le> datetime_max
   \<and> (\<exists>plan. calculate_renamings Posix [(''a.jpg'', 0), (''b.jpg'', 0)] = Inr plan)
   \<and> calculate_renamings Posix
        [(''a.jpg'', 315537897599000000), (''b.jpg'', 315537897599000000)] = Inl OverflowError
   \<and> OverflowError = OverflowError"
proof -
  have h1: "\<forall>x\<in>set [(''a.jpg'', 0::nat), (''b.jpg'', 0)].
       snd x + (length [(''a.jpg'', 0::nat), (''b.jpg'', 0)] - 1) * second \<le> datetime_max"
    by (simp add: second_def datetime_max_def)
  have h2: "calculate_renamings Posix
        [(''a.jpg'', 315537897599000000), (''b.jpg'', 315537897599000000)] = Inl OverflowError"
    by (simp add: plan_simps time_simps)
  note t1 = planner_totality[of "[(''a.jpg'', 0), (''b.jpg'', 0)]" Posix OverflowError]
  note t2 = planner_totality[of "[(''a.jpg'', 315537897599000000), (''b.jpg'', 315537897599000000)]"
      Posix OverflowError]
  have c1: "\<exists>plan. calculate_renamings Posix [(''a.jpg'', 0), (''b.jpg'', 0)] = Inr plan"
    by (rule mp[OF conjunct1[OF t1] h1])
  have c2: "OverflowError = OverflowError"
    by (rule mp[OF conjunct1[OF conjunct2[OF t2]] h2])
  have h0: "(0::nat) + (length [(''a.jpg'', 0::nat), (''b.jpg'', 0)] - 1) * second \<le> datetime_max"
    by (simp add: second_def datetime_max_def)
  show ?thesis
    by (rule conjI[OF h0 conjI[OF c1 conjI[OF h2 c2]]])
qed

theorem planner_overflow_counterexample:
  "calculate_renamings Posix
     [(''a.jpg'', 315537897599000000), (''b.jpg'', 315537897599000000)] = Inl OverflowError"
  by (simp add: plan_simps time_simps)

subsection \<open>The timestamp resolver\<close>

lemmas strptime_simps = strptime_def parse_fields_def field_def literal_def spaces_def day_field_def
  is_digit_def is_space_def int_of_digits_def days_in_month_def is_leap_def ymd2ord_def
  days_before_year_def days_before_month_def DAYS_IN_MONTH_def DAYS_BEFORE_MONTH_def second_def
  Let_def

lemmas resolver_simps = exif_time_else_creation_time_def exif_creation_time_def creation_time_def
  EXIF_DATE_TIME_ORIGINAL_def

lemma strptime_error: "strptime s = Inl e \<Longrightarrow> e = ValueError"
  by (auto simp: strptime_def split: option.splits prod.splits if_splits)

lemma info_loop_other:
  "info_loop resolve files acc = Inr m \<Longrightarrow> f \<notin> set files \<Longrightarrow> map_of m f = map_of acc f"
proof (induction files arbitrary: acc)
  case Nil
  then show ?case by simp
next
  case (Cons x xs)
  from Cons.prems obtain t where t: "resolve x = Inr t"
    and l: "info_loop resolve xs (AList.update x t acc) = Inr m"
    by (auto split: sum.splits)
  from Cons.prems have "f \<notin> set xs" and "f \<noteq> x" by auto
  with Cons.IH[OF l] show ?case
    by (simp add: update_conv')
qed

lemma info_loop_entry:
  "info_loop resolve files acc = Inr m \<Longrightarrow> f \<in> set files \<Longrightarrow>
     \<exists>t. resolve f = Inr t \<and> map_of m f = Some t"
proof (induction files arbitrary: acc)
  case Nil
  then show ?case by simp
next
  case (Cons x xs)
  from Cons.prems obtain t where t: "resolve x = Inr t"
    and l: "info_loop resolve xs (AList.update x t acc) = Inr m"
    by (auto split: sum.splits)
  show ?case
  proof (cases "f \<in> set xs")
    case True
    then show ?thesis by (rule Cons.IH[OF l])
  next
    case False
    with Cons.prems have "f = x" by simp
    moreover from info_loop_other[OF l False] have "map_of m f = map_of (AList.update x t acc) f" .
    ultimately show ?thesis using t by (simp add: update_conv')
  qed
qed

text \<open>
  Claim C3 (a malformed embedded timestamp is fatal).  For a file that can be read and
  whose capture-time tag is present with a text that \<open>strptime\<close> rejects, the
  resolver raises \<^verbatim>\<open>ValueError\<close>, on every host and whatever the timestamps of the
  file system and their conversion are: it returns no instant, and
  \<open>exif_creation_time\<close> does not return \<^verbatim>\<open>None\<close>, the only value that leads to the
  fallback.
\<close>

theorem malformed_timestamp_fatal:
  assumes "fs file = Some info"
    and "map_of (exif_tags info) EXIF_DATE_TIME_ORIGINAL = Some date_time"
    and "strptime date_time = Inl e"
  shows "exif_time_else_creation_time fromtimestamp host fs file = Inl ValueError
       \<and> (\<forall>t. exif_time_else_creation_time fromtimestamp host fs file \<noteq> Inr t)
       \<and> exif_creation_time fs file \<noteq> Inr None"
proof -
  from assms(3) have e: "e = ValueError" by (rule strptime_error)
  with assms have x: "exif_creation_time fs file = Inl ValueError"
    by (simp add: exif_creation_time_def)
  then have r: "exif_time_else_creation_time fromtimestamp host fs file = Inl ValueError"
    by (simp add: exif_time_else_creation_time_def)
  with x show ?thesis by simp
qed

theorem malformed_timestamp_fatal_witness:
  "[''a.jpg'' \<mapsto>
      \<lparr>exif_tags = [(EXIF_DATE_TIME_ORIGINAL, ''0000:00:00 00:00:00'')], st_ctime = 63713469700000000::nat,
        st_birthtime = None, st_mtime = 63713469800000000\<rparr>] ''a.jpg''
     = Some \<lparr>exif_tags = [(EXIF_DATE_TIME_ORIGINAL, ''0000:00:00 00:00:00'')], st_ctime = 63713469700000000::nat,
        st_birthtime = None, st_mtime = 63713469800000000\<rparr>
   \<and> map_of (exif_tags \<lparr>exif_tags = [(EXIF_DATE_TIME_ORIGINAL, ''0000:00:00 00:00:00'')], st_ctime = 63713469700000000::nat,
        st_birthtime = None, st_mtime = 63713469800000000\<rparr>)
        EXIF_DATE_TIME_ORIGINAL = Some ''0000:00:00 00:00:00''
   \<and> strptime ''0000:00:00 00:00:00'' = Inl ValueError
   \<and> creation_time Inr Posix [''a.jpg'' \<mapsto>
      \<lparr>exif_tags = [(EXIF_DATE_TIME_ORIGINAL, ''0000:00:00 00:00:00'')], st_ctime = 63713469700000000::nat,
        st_birthtime = None, st_mtime = 63713469800000000\<rparr>] ''a.jpg''
       = Inr 63713469800000000
   \<and> exif_time_else_creation_time Inr Posix [''a.jpg'' \<mapsto>
      \<lparr>exif_tags = [(EXIF_DATE_TIME_ORIGINAL, ''0000:00:00 00:00:00'')], st_ctime = 63713469700000000::nat,
        st_birthtime = None, st_mtime = 63713469800000000\<rparr>] ''a.jpg''
       = Inl ValueError
   \<and> (\<forall>t. exif_time_else_creation_time Inr Posix [''a.jpg'' \<mapsto>
      \<lparr>exif_tags = [(EXIF_DATE_TIME_ORIGINAL, ''0000:00:00 00:00:00'')], st_ctime = 63713469700000000::nat,
        st_birthtime = None, st_mtime = 63713469800000000\<rparr>] ''a.jpg''
          \<noteq> Inr t)
   \<and> exif_creation_time [''a.jpg'' \<mapsto>
      \<lparr>exif_tags = [(EXIF_DATE_TIME_ORIGINAL, ''0000:00:00 00:00:00'')], st_ctime = 63713469700000000::nat,
        st_birthtime = None, st_mtime = 63713469800000000\<rparr>] ''a.jpg''
       \<noteq> Inr None"
proof -
  have h1: "[''a.jpg'' \<mapsto>
      \<lparr>exif_tags = [(EXIF_DATE_TIME_ORIGINAL, ''0000:00:00 00:00:00'')], st_ctime = 63713469700000000::nat,
        st_birthtime = None, st_mtime = 63713469800000000\<rparr>] ''a.jpg''
     = Some \<lparr>exif_tags = [(EXIF_DATE_TIME_ORIGINAL, ''0000:00:00 00:00:00'')], st_ctime = 63713469700000000::nat,
        st_birthtime = None, st_mtime = 63713469800000000\<rparr>"
    by simp
  have h2: "map_of (exif_tags \<lparr>exif_tags = [(EXIF_DATE_TIME_ORIGINAL, ''0000:00:00 00:00:00'')], st_ctime = 63713469700000000::nat,
        st_birthtime = None, st_mtime = 63713469800000000\<rparr>)
        EXIF_DATE_TIME_ORIGINAL = Some ''0000:00:00 00:00:00''"
    by simp
  have h3: "strptime ''0000:00:00 00:00:00'' = Inl ValueError"
    by (simp add: strptime_simps)
  have c: "creation_time Inr Posix [''a.jpg'' \<mapsto>
      \<lparr>exif_tags = [(EXIF_DATE_TIME_ORIGINAL, ''0000:00:00 00:00:00'')], st_ctime = 63713469700000000::nat,
        st_birthtime = None, st_mtime = 63713469800000000\<rparr>] ''a.jpg''
       = Inr 63713469800000000"
    by (simp add: creation_time_def)
  note t = malformed_timestamp_fatal[of "[''a.jpg'' \<mapsto>
      \<lparr>exif_tags = [(EXIF_DATE_TIME_ORIGINAL, ''0000:00:00 00:00:00'')], st_ctime = 63713469700000000::nat,
        st_birthtime = None, st_mtime = 63713469800000000\<rparr>]"
      "''a.jpg''", OF h1 h2 h3]
  show ?thesis
    by (rule conjI[OF h1 conjI[OF h2 conjI[OF h3 conjI[OF c t]]]])
qed

text \<open>
  Claim C8 (the embedded value has precedence).  For a file that can be read and whose
  capture-time tag is present with a text that \<open>strptime\<close> parses to \<open>t\<close>, the resolver
  returns \<open>t\<close>, on every host and whatever the timestamps of the file system and their
  conversion are.
\<close>

theorem fallback_precedence:
  assumes "fs file = Some info"
    and "map_of (exif_tags info) EXIF_DATE_TIME_ORIGINAL = Some date_time"
    and "strptime date_time = Inr t"
  shows "exif_time_else_creation_time fromtimestamp host fs file = Inr t"
  using assms by (simp add: exif_time_else_creation_time_def exif_creation_time_def)

theorem fallback_precedence_witness:
  "[''a.jpg'' \<mapsto>
      \<lparr>exif_tags = [(EXIF_DATE_TIME_ORIGINAL, ''2020:01:01 10:00:00'')], st_ctime = 63713469700000000::nat,
        st_birthtime = None, st_mtime = 63713469800000000\<rparr>] ''a.jpg''
     = Some \<lparr>exif_tags = [(EXIF_DATE_TIME_ORIGINAL, ''2020:01:01 10:00:00'')], st_ctime = 63713469700000000::nat,
        st_birthtime = None, st_mtime = 63713469800000000\<rparr>
   \<and> map_of (exif_tags \<lparr>exif_tags = [(EXIF_DATE_TIME_ORIGINAL, ''2020:01:01 10:00:00'')], st_ctime = 63713469700000000::nat,
        st_birthtime = None, st_mtime = 63713469800000000\<rparr>)
        EXIF_DATE_TIME_ORIGINAL = Some ''2020:01:01 10:00:00''
   \<and> strptime ''2020:01:01 10:00:00'' = Inr 63713469600000000
   \<and> exif_time_else_creation_time Inr Posix [''a.jpg'' \<mapsto>
      \<lparr>exif_tags = [(EXIF_DATE_TIME_ORIGINAL, ''2020:01:01 10:00:00'')], st_ctime = 63713469700000000::nat,
        st_birthtime = None, st_mtime = 63713469800000000\<rparr>] ''a.jpg''
       = Inr 63713469600000000
   \<and> creation_time Inr Posix [''a.jpg'' \<mapsto>
      \<lparr>exif_tags = [(EXIF_DATE_TIME_ORIGINAL, ''2020:01:01 10:00:00'')], st_ctime = 63713469700000000::nat,
        st_birthtime = None, st_mtime = 63713469800000000\<rparr>] ''a.jpg''
       = Inr 63713469800000000"
proof -
  have h1: "[''a.jpg'' \<mapsto>
      \<lparr>exif_tags = [(EXIF_DATE_TIME_ORIGINAL, ''2020:01:01 10:00:00'')], st_ctime = 63713469700000000::nat,
        st_birthtime = None, st_mtime = 63713469800000000\<rparr>] ''a.jpg''
     = Some \<lparr>exif_tags = [(EXIF_DATE_TIME_ORIGINAL, ''2020:01:01 10:00:00'')], st_ctime = 63713469700000000::nat,
        st_birthtime = None, st_mtime = 63713469800000000\<rparr>"
    by simp
  have h2: "map_of (exif_tags \<lparr>exif_tags = [(EXIF_DATE_TIME_ORIGINAL, ''2020:01:01 10:00:00'')], st_ctime = 63713469700000000::nat,
        st_birthtime = None, st_mtime = 63713469800000000\<rparr>)
        EXIF_DATE_TIME_ORIGINAL = Some ''2020:01:01 10:00:00''"
    by simp
  have h3: "strptime ''2020:01:01 10:00:00'' = Inr 63713469600000000"
    by (simp add: strptime_simps)
  have c: "creation_time Inr Posix [''a.jpg'' \<mapsto>
      \<lparr>exif_tags = [(EXIF_DATE_TIME_ORIGINAL, ''2020:01:01 10:00:00'')], st_ctime = 63713469700000000::nat,
        st_birthtime = None, st_mtime = 63713469800000000\<rparr>] ''a.jpg''
       = Inr 63713469800000000"
    by (simp add: creation_time_def)
  note t = fallback_precedence[of "[''a.jpg'' \<mapsto>
      \<lparr>exif_tags = [(EXIF_DATE_TIME_ORIGINAL, ''2020:01:01 10:00:00'')], st_ctime = 63713469700000000::nat,
        st_birthtime = None, st_mtime = 63713469800000000\<rparr>]"
      "''a.jpg''", OF h1 h2 h3]
  show ?thesis
    by (rule conjI[OF h1 conjI[OF h2 conjI[OF h3 conjI[OF t c]]]])
qed

text \<open>
  Claim C4 (fallback to the file system), as the code has it.  For a file that can be
  read: when the capture-time tag is absent, the resolver returns what \<open>creation_time\<close>
  returns; \<open>creation_time\<close> is the conversion by \<open>fromtimestamp\<close>, instant or error, of
  the creation time on Windows and elsewhere of the birth time, or of the last-modified
  time where the birth time is not available; and a video of a batch whose times were
  all resolved has the instant of \<open>creation_time\<close>.  A tag that is present and does not
  parse is not among these cases.
\<close>

theorem filesystem_fallback:
  assumes "fs file = Some info"
  shows "(map_of (exif_tags info) EXIF_DATE_TIME_ORIGINAL = None
            \<longrightarrow> exif_time_else_creation_time fromtimestamp host fs file
                = creation_time fromtimestamp host fs file)
       \<and> creation_time fromtimestamp Windows fs file = fromtimestamp (st_ctime info)
       \<and> creation_time fromtimestamp Posix fs file
            = fromtimestamp
                (case st_birthtime info of Some birthtime \<Rightarrow> birthtime | None \<Rightarrow> st_mtime info)
       \<and> (is_video file \<and> file \<in> set files
            \<and> video_files_map fromtimestamp host fs files = Inr m
            \<longrightarrow> (\<exists>t. creation_time fromtimestamp host fs file = Inr t \<and> map_of m file = Some t))"
proof (intro conjI impI)
  assume "map_of (exif_tags info) EXIF_DATE_TIME_ORIGINAL = None"
  with assms show "exif_time_else_creation_time fromtimestamp host fs file
      = creation_time fromtimestamp host fs file"
    by (simp add: exif_time_else_creation_time_def exif_creation_time_def)
next
  from assms show "creation_time fromtimestamp Windows fs file = fromtimestamp (st_ctime info)"
    by (simp add: creation_time_def)
next
  from assms show "creation_time fromtimestamp Posix fs file
      = fromtimestamp
          (case st_birthtime info of Some birthtime \<Rightarrow> birthtime | None \<Rightarrow> st_mtime info)"
    by (simp add: creation_time_def split: option.splits)
next
  assume a: "is_video file \<and> file \<in> set files
      \<and> video_files_map fromtimestamp host fs files = Inr m"
  then have "info_loop (creation_time fromtimestamp host fs) (filter is_video files) [] = Inr m"
    by (simp add: video_files_map_def)
  moreover from a have "file \<in> set (filter is_video files)" by simp
  ultimately show "\<exists>t. creation_time fromtimestamp host fs file = Inr t \<and> map_of m file = Some t"
    by (rule info_loop_entry)
qed

theorem filesystem_fallback_witness:
  "[''a.mp4'' \<mapsto>
      \<lparr>exif_tags = [], st_ctime = 63713469700000000::nat,
        st_birthtime = None, st_mtime = 63713469800000000\<rparr>] ''a.mp4''
     = Some \<lparr>exif_tags = [], st_ctime = 63713469700000000::nat,
        st_birthtime = None, st_mtime = 63713469800000000\<rparr>
   \<and> map_of (exif_tags \<lparr>exif_tags = [], st_ctime = 63713469700000000::nat,
        st_birthtime = None, st_mtime = 63713469800000000\<rparr>)
        EXIF_DATE_TIME_ORIGINAL = None
   \<and> is_video ''a.mp4''
   \<and> ''a.mp4'' \<in> set [''a.mp4'']
   \<and> video_files_map Inr Posix [''a.mp4'' \<mapsto>
      \<lparr>exif_tags = [], st_ctime = 63713469700000000::nat,
        st_birthtime = None, st_mtime = 63713469800000000\<rparr>] [''a.mp4'']
       = Inr [(''a.mp4'', 63713469800000000)]
   \<and> exif_time_else_creation_time Inr Posix [''a.mp4'' \<mapsto>
      \<lparr>exif_tags = [], st_ctime = 63713469700000000::nat,
        st_birthtime = None, st_mtime = 63713469800000000\<rparr>] ''a.mp4''
       = creation_time Inr Posix [''a.mp4'' \<mapsto>
      \<lparr>exif_tags = [], st_ctime = 63713469700000000::nat,
        st_birthtime = None, st_mtime = 63713469800000000\<rparr>] ''a.mp4''
   \<and> creation_time Inr Windows [''a.mp4'' \<mapsto>
      \<lparr>exif_tags = [], st_ctime = 63713469700000000::nat,
        st_birthtime = None, st_mtime = 63713469800000000\<rparr>] ''a.mp4''
       = Inr 63713469700000000
   \<and> creation_time Inr Posix [''a.mp4'' \<mapsto>
      \<lparr>exif_tags = [], st_ctime = 63713469700000000::nat,
        st_birthtime = None, st_mtime = 63713469800000000\<rparr>] ''a.mp4''
       = Inr 63713469800000000
   \<and> (\<exists>t. creation_time Inr Posix [''a.mp4'' \<mapsto>
      \<lparr>exif_tags = [], st_ctime = 63713469700000000::nat,
        st_birthtime = None, st_mtime = 63713469800000000\<rparr>] ''a.mp4'' = Inr t
          \<and> map_of [(''a.mp4'', 63713469800000000)] ''a.mp4'' = Some t)"
proof -
  have h1: "[''a.mp4'' \<mapsto>
      \<lparr>exif_tags = [], st_ctime = 63713469700000000::nat,
        st_birthtime = None, st_mtime = 63713469800000000\<rparr>] ''a.mp4''
     = Some \<lparr>exif_tags = [], st_ctime = 63713469700000000::nat,
        st_birthtime = None, st_mtime = 63713469800000000\<rparr>"
    by simp
  have h2: "map_of (exif_tags \<lparr>exif_tags = [], st_ctime = 63713469700000000::nat,
        st_birthtime = None, st_mtime = 63713469800000000\<rparr>)
        EXIF_DATE_TIME_ORIGINAL = None"
    by simp
  have h3: "is_video ''a.mp4''"
    by (simp add: is_video_def has_extension_def video_extensions_def endswith_def lower_def)
  have h4: "''a.mp4'' \<in> set [''a.mp4'']"
    by simp
  have h5: "video_files_map Inr Posix [''a.mp4'' \<mapsto>
      \<lparr>exif_tags = [], st_ctime = 63713469700000000::nat,
        st_birthtime = None, st_mtime = 63713469800000000\<rparr>] [''a.mp4'']
       = Inr [(''a.mp4'', 63713469800000000)]"
    by (simp add: video_files_map_def h3 creation_time_def)
  note t = filesystem_fallback[of "[''a.mp4'' \<mapsto>
      \<lparr>exif_tags = [], st_ctime = 63713469700000000::nat,
        st_birthtime = None, st_mtime = 63713469800000000\<rparr>]"
      "''a.mp4''" _ Inr Posix "[''a.mp4'']" "[(''a.mp4'', 63713469800000000)]", OF h1]
  have c1: "exif_time_else_creation_time Inr Posix [''a.mp4'' \<mapsto>
      \<lparr>exif_tags = [], st_ctime = 63713469700000000::nat,
        st_birthtime = None, st_mtime = 63713469800000000\<rparr>] ''a.mp4''
       = creation_time Inr Posix [''a.mp4'' \<mapsto>
      \<lparr>exif_tags = [], st_ctime = 63713469700000000::nat,
        st_birthtime = None, st_mtime = 63713469800000000\<rparr>] ''a.mp4''"
    by (rule mp[OF conjunct1[OF t] h2])
  have c2: "creation_time Inr Windows [''a.mp4'' \<mapsto>
      \<lparr>exif_tags = [], st_ctime = 63713469700000000::nat,
        st_birthtime = None, st_mtime = 63713469800000000\<rparr>] ''a.mp4''
       = Inr 63713469700000000"
    using conjunct1[OF conjunct2[OF t]] by simp
  have c3: "creation_time Inr Posix [''a.mp4'' \<mapsto>
      \<lparr>exif_tags = [], st_ctime = 63713469700000000::nat,
        st_birthtime = None, st_mtime = 63713469800000000\<rparr>] ''a.mp4''
       = Inr 63713469800000000"
    using conjunct1[OF conjunct2[OF conjunct2[OF t]]] by simp
  have c4: "\<exists>t. creation_time Inr Posix [''a.mp4'' \<mapsto>
      \<lparr>exif_tags = [], st_ctime = 63713469700000000::nat,
        st_birthtime = None, st_mtime = 63713469800000000\<rparr>] ''a.mp4'' = Inr t
          \<and> map_of [(''a.mp4'', 63713469800000000)] ''a.mp4'' = Some t"
    by (rule mp[OF conjunct2[OF conjunct2[OF conjunct2[OF t]]] conjI[OF h3 conjI[OF h4 h5]]])
  show ?thesis
    by (rule conjI[OF h1 conjI[OF h2 conjI[OF h3 conjI[OF h4 conjI[OF h5
          conjI[OF c1 conjI[OF c2 conjI[OF c3 c4]]]]]]]])
qed

theorem parse_failure_no_fallback_counterexample:
  "map_of (exif_tags \<lparr>exif_tags = [(EXIF_DATE_TIME_ORIGINAL, ''0000:00:00 00:00:00'')], st_ctime = 63713469700000000::nat,
        st_birthtime = None, st_mtime = 63713469800000000\<rparr>)
        EXIF_DATE_TIME_ORIGINAL = Some ''0000:00:00 00:00:00''
   \<and> strptime ''0000:00:00 00:00:00'' = Inl ValueError
   \<and> exif_time_else_creation_time Inr Posix [''a.jpg'' \<mapsto>
      \<lparr>exif_tags = [(EXIF_DATE_TIME_ORIGINAL, ''0000:00:00 00:00:00'')], st_ctime = 63713469700000000::nat,
        st_birthtime = None, st_mtime = 63713469800000000\<rparr>] ''a.jpg''
       = Inl ValueError
   \<and> creation_time Inr Posix [''a.jpg'' \<mapsto>
      \<lparr>exif_tags = [(EXIF_DATE_TIME_ORIGINAL, ''0000:00:00 00:00:00'')], st_ctime = 63713469700000000::nat,
        st_birthtime = None, st_mtime = 63713469800000000\<rparr>] ''a.jpg''
       = Inr 63713469800000000"
  by (simp add: resolver_simps strptime_simps)

subsection \<open>Names that collide, and the order of the input\<close>

text \<open>
  Claim C1 (uniqueness of target names), at an input where the code misses it.  Two
  videos created within the same second, a tenth of a second apart, have distinct
  instants, so \<open>calculate_renamings\<close> sees no collision and flags neither; the names
  are made with a format that has no microseconds, and both files get the same target
  name.
\<close>

theorem same_second_same_target_name:
  "calculate_renamings Posix [(''a.mp4'', 63713469600100000), (''b.mp4'', 63713469600200000)]
     = Inr [(''a.mp4'', (''2020-01-01 10:00:00.mp4'', False)),
            (''b.mp4'', (''2020-01-01 10:00:00.mp4'', False))]
   \<and> \<not> distinct (map (\<lambda>entry. fst (snd entry))
                      [(''a.mp4'', (''2020-01-01 10:00:00.mp4'', False)),
                       (''b.mp4'', (''2020-01-01 10:00:00.mp4'', False))])"
  by (simp add: plan_simps path_simps time_simps)

lemma sort_key_same_groups:
  fixes xs ys :: "(string \<times> datetime) list"
  assumes "mset xs = mset ys"
    and "\<And>t. filter (\<lambda>p. snd p = t) xs = filter (\<lambda>p. snd p = t) ys"
  shows "sort_key snd xs = sort_key snd ys"
proof (rule properties_for_sort_key)
  show "mset (sort_key snd ys) = mset xs"
    using assms(1) by simp
next
  fix k
  have "filter (\<lambda>x. snd k = snd x) (sort_key snd ys) = filter (\<lambda>x. snd x = snd k) (sort_key snd ys)"
    by (simp add: eq_commute)
  also have "\<dots> = filter (\<lambda>x. snd x = snd k) ys"
    by (rule sort_key_stable)
  also have "\<dots> = filter (\<lambda>x. snd x = snd k) xs"
    by (rule assms(2)[symmetric])
  also have "\<dots> = filter (\<lambda>x. snd k = snd x) xs"
    by (simp add: eq_commute)
  finally show "filter (\<lambda>x. snd k = snd x) (sort_key snd ys) = filter (\<lambda>x. snd k = snd x) xs" .
next
  show "sorted (map snd (sort_key snd ys))"
    by simp
qed

lemma singleton_lists_eq:
  assumes "distinct as" and "distinct bs" and "set as = set bs"
    and "\<And>a b. a \<in> set as \<Longrightarrow> b \<in> set as \<Longrightarrow> a = b"
  shows "as = bs"
proof (cases as)
  case Nil
  with assms(3) show ?thesis by simp
next
  case (Cons a as')
  have "as' = []"
  proof (cases as')
    case Nil
    then show ?thesis .
  next
    case (Cons a' as'')
    with \<open>as = a # as'\<close> assms(4)[of a a'] assms(1) show ?thesis by simp
  qed
  with Cons have as: "as = [a]" by simp
  with assms(3) have sb: "set bs = {a}" by simp
  then obtain b bs' where bs: "bs = b # bs'" by (cases bs) auto
  with sb have b: "b = a" by auto
  have "bs' = []"
  proof (cases bs')
    case Nil
    then show ?thesis .
  next
    case (Cons b' bs'')
    with bs sb b have "b' = a" by auto
    with Cons bs b assms(2) show ?thesis by simp
  qed
  with as bs b show ?thesis by simp
qed

lemma distinct_instants_same_groups:
  fixes xs ys :: "(string \<times> datetime) list"
  assumes "distinct (map snd xs)" and "distinct ys" and "set xs = set ys"
  shows "filter (\<lambda>p. snd p = t) xs = filter (\<lambda>p. snd p = t) ys"
proof (rule singleton_lists_eq)
  from assms(1) show "distinct (filter (\<lambda>p. snd p = t) xs)"
    by (simp add: distinct_map)
  from assms(2) show "distinct (filter (\<lambda>p. snd p = t) ys)"
    by simp
  from assms(3) show "set (filter (\<lambda>p. snd p = t) xs) = set (filter (\<lambda>p. snd p = t) ys)"
    by simp
  fix a b
  assume "a \<in> set (filter (\<lambda>p. snd p = t) xs)" and "b \<in> set (filter (\<lambda>p. snd p = t) xs)"
  then have "a \<in> set xs" "b \<in> set xs" "snd a = snd b" by simp_all
  moreover from assms(1) have "inj_on snd (set xs)" by (simp add: distinct_map)
  ultimately show "a = b" by (auto dest: inj_onD)
qed

text \<open>
  Claim C2 (order independence), as the code has it.  Two enumerations of the same set
  of (file, instant) pairs give the same plan when they list the files of every group
  of equal instants in the same relative order, and so in particular when the instants
  are pairwise distinct: the sort is stable and its key is the instant alone.
\<close>

theorem order_independence:
  assumes "distinct (map fst xs)" and "distinct (map fst ys)" and "set xs = set ys"
    and "(\<forall>t. filter (\<lambda>p. snd p = t) xs = filter (\<lambda>p. snd p = t) ys) \<or> distinct (map snd xs)"
  shows "calculate_renamings host xs = calculate_renamings host ys"
proof -
  from assms(1) have "distinct xs" by (simp add: distinct_map)
  moreover from assms(2) have dy: "distinct ys" by (simp add: distinct_map)
  ultimately have m: "mset xs = mset ys"
    using assms(3) by (simp add: set_eq_iff_mset_eq_distinct)
  have g: "filter (\<lambda>p. snd p = t) xs = filter (\<lambda>p. snd p = t) ys" for t
    using assms(4) distinct_instants_same_groups[OF _ dy assms(3)] by blast
  from m g have "sort_key snd xs = sort_key snd ys"
    by (rule sort_key_same_groups)
  then show ?thesis
    by (simp add: calculate_renamings_def assign_instants_def)
qed

theorem order_independence_witness:
  "distinct (map fst [(''a.jpg'', 0::nat), (''b.jpg'', 0), (''c.jpg'', 1000000)])
   \<and> distinct (map fst [(''c.jpg'', 1000000::nat), (''a.jpg'', 0), (''b.jpg'', 0)])
   \<and> set [(''a.jpg'', 0::nat), (''b.jpg'', 0), (''c.jpg'', 1000000)]
       = set [(''c.jpg'', 1000000), (''a.jpg'', 0), (''b.jpg'', 0)]
   \<and> (\<forall>t. filter (\<lambda>p. snd p = t) [(''a.jpg'', 0::nat), (''b.jpg'', 0), (''c.jpg'', 1000000)]
          = filter (\<lambda>p. snd p = t) [(''c.jpg'', 1000000), (''a.jpg'', 0), (''b.jpg'', 0)])
   \<and> calculate_renamings Posix [(''a.jpg'', 0), (''b.jpg'', 0), (''c.jpg'', 1000000)]
       = calculate_renamings Posix [(''c.jpg'', 1000000), (''a.jpg'', 0), (''b.jpg'', 0)]"
proof -
  have h1: "distinct (map fst [(''a.jpg'', 0::nat), (''b.jpg'', 0), (''c.jpg'', 1000000)])"
    by simp
  have h2: "distinct (map fst [(''c.jpg'', 1000000::nat), (''a.jpg'', 0), (''b.jpg'', 0)])"
    by simp
  have h3: "set [(''a.jpg'', 0::nat), (''b.jpg'', 0), (''c.jpg'', 1000000)]
       = set [(''c.jpg'', 1000000), (''a.jpg'', 0), (''b.jpg'', 0)]"
    by auto
  have h4: "\<forall>t. filter (\<lambda>p. snd p = t) [(''a.jpg'', 0::nat), (''b.jpg'', 0), (''c.jpg'', 1000000)]
          = filter (\<lambda>p. snd p = t) [(''c.jpg'', 1000000), (''a.jpg'', 0), (''b.jpg'', 0)]"
    by simp
  show ?thesis
    by (rule conjI[OF h1 conjI[OF h2 conjI[OF h3 conjI[OF h4
          order_independence[OF h1 h2 h3 disjI1[OF h4]]]]]])
qed

theorem order_dependence_counterexample:
  "set [(''a.jpg'', 63713469600000000::nat), (''b.jpg'', 63713469600000000)] = set [(''b.jpg'', 63713469600000000), (''a.jpg'', 63713469600000000)]
   \<and> calculate_renamings Posix [(''a.jpg'', 63713469600000000), (''b.jpg'', 63713469600000000)]
       = Inr [(''a.jpg'', (''2020-01-01 10:00:00.jpg'', False)),
              (''b.jpg'', (''2020-01-01 10:00:01.jpg'', True))]
   \<and> calculate_renamings Posix [(''b.jpg'', 63713469600000000), (''a.jpg'', 63713469600000000)]
       = Inr [(''b.jpg'', (''2020-01-01 10:00:00.jpg'', False)),
              (''a.jpg'', (''2020-01-01 10:00:01.jpg'', True))]
   \<and> calculate_renamings Posix [(''a.jpg'', 63713469600000000), (''b.jpg'', 63713469600000000)]
       \<noteq> calculate_renamings Posix [(''b.jpg'', 63713469600000000), (''a.jpg'', 63713469600000000)]"
proof -
  have s: "set [(''a.jpg'', 63713469600000000::nat), (''b.jpg'', 63713469600000000)] = set [(''b.jpg'', 63713469600000000), (''a.jpg'', 63713469600000000)]"
    by auto
  have p1: "calculate_renamings Posix [(''a.jpg'', 63713469600000000), (''b.jpg'', 63713469600000000)]
       = Inr [(''a.jpg'', (''2020-01-01 10:00:00.jpg'', False)),
              (''b.jpg'', (''2020-01-01 10:00:01.jpg'', True))]"
    by (simp add: plan_simps path_simps time_simps)
  have p2: "calculate_renamings Posix [(''b.jpg'', 63713469600000000), (''a.jpg'', 63713469600000000)]
       = Inr [(''b.jpg'', (''2020-01-01 10:00:00.jpg'', False)),
              (''a.jpg'', (''2020-01-01 10:00:01.jpg'', True))]"
    by (simp add: plan_simps path_simps time_simps)
  have n: "calculate_renamings Posix [(''a.jpg'', 63713469600000000), (''b.jpg'', 63713469600000000)]
       \<noteq> calculate_renamings Posix [(''b.jpg'', 63713469600000000), (''a.jpg'', 63713469600000000)]"
    unfolding p1 p2 by simp
  show ?thesis
    by (rule conjI[OF s conjI[OF p1 conjI[OF p2 n]]])
qed

subsection \<open>Clusters of equal instants\<close>

lemma for_loop_mono: "for_loop xs r = Inr r' \<Longrightarrow> set r \<subseteq> set r'"
proof (induction xs arbitrary: r)
  case Nil
  then show ?case by simp
next
  case (Cons x xs)
  obtain f t0 where x: "x = (f, t0)" by (cases x)
  from Cons.prems x obtain r1 where w: "while_loop r f t0 t0 = Inr r1"
    and l: "for_loop xs r1 = Inr r'"
    by (auto split: sum.splits)
  from while_loop_Inr[OF w] have "set r \<subseteq> set r1" by auto
  with Cons.IH[OF l] show ?case by blast
qed

lemma sorted_split3:
  fixes S :: "(string \<times> datetime) list"
  shows "sorted (map snd S) \<Longrightarrow>
    S = filter (\<lambda>p. snd p < t) S @ filter (\<lambda>p. snd p = t) S @ filter (\<lambda>p. t < snd p) S"
proof (induction S)
  case Nil
  then show ?case by simp
next
  case (Cons x S)
  then have le: "\<forall>y\<in>set S. snd x \<le> snd y" and s: "sorted (map snd S)"
    by auto
  note ih = Cons.IH[OF s]
  consider "snd x < t" | "snd x = t" | "t < snd x" by linarith
  then show ?case
  proof cases
    case 1
    with ih show ?thesis by simp
  next
    case 2
    with le have "filter (\<lambda>p. snd p < t) S = []"
      by (auto simp: filter_empty_conv)
    with ih 2 show ?thesis by simp
  next
    case 3
    with le have "filter (\<lambda>p. snd p < t) S = []" and "filter (\<lambda>p. snd p = t) S = []"
      by (auto simp: filter_empty_conv)
    with ih 3 show ?thesis by simp
  qed
qed

lemma cluster_loop:
  "for_loop B r = Inr r' \<Longrightarrow> \<forall>p\<in>set B. snd p = t \<Longrightarrow>
   \<forall>j<i. t + j * second \<in> fst ` set r \<Longrightarrow>
   \<forall>k<length B. t + (i + k) * second \<notin> fst ` set r \<Longrightarrow>
   k < length B \<Longrightarrow>
   (t + (i + k) * second, (fst (B ! k), i + k \<noteq> 0)) \<in> set r'"
proof (induction B arbitrary: r i k)
  case Nil
  then show ?case by simp
next
  case (Cons x B)
  obtain f where x: "x = (f, t)" using Cons.prems(2) by (cases x) auto
  from Cons.prems(1) x obtain r1 where w: "while_loop r f t t = Inr r1"
    and l: "for_loop B r1 = Inr r'"
    by (auto split: sum.splits)
  from while_loop_Inr[OF w] obtain n where
    r1: "r1 = r @ [(t + n * second, (f, t + n * second \<noteq> t))]"
    and free: "t + n * second \<notin> fst ` set r"
    and taken: "\<forall>j<n. t + j * second \<in> fst ` set r"
    by blast
  have pos: "0 < second" by (simp add: second_def)
  have "\<not> n < i" using Cons.prems(3) free by blast
  moreover have "\<not> i < n"
  proof
    assume "i < n"
    with taken have "t + i * second \<in> fst ` set r" by blast
    moreover from Cons.prems(4) have "t + (i + 0) * second \<notin> fst ` set r" by fastforce
    ultimately show False by simp
  qed
  ultimately have n: "n = i" by simp
  have flag: "(t + i * second \<noteq> t) = (i \<noteq> 0)" using pos by simp
  show ?case
  proof (cases k)
    case 0
    from r1 n flag have "(t + i * second, (f, i \<noteq> 0)) \<in> set r1" by simp
    with for_loop_mono[OF l] have "(t + i * second, (f, i \<noteq> 0)) \<in> set r'" by blast
    with 0 x show ?thesis by simp
  next
    case (Suc k')
    from Cons.prems(2) have a: "\<forall>p\<in>set B. snd p = t" by simp
    have b: "\<forall>j<Suc i. t + j * second \<in> fst ` set r1"
    proof (intro allI impI)
      fix j assume "j < Suc i"
      then consider "j < i" | "j = i" by linarith
      then show "t + j * second \<in> fst ` set r1"
      proof cases
        case 1
        with Cons.prems(3) r1 show ?thesis by simp
      next
        case 2
        with r1 n show ?thesis by simp
      qed
    qed
    have c: "\<forall>k<length B. t + (Suc i + k) * second \<notin> fst ` set r1"
    proof (intro allI impI)
      fix k assume k: "k < length B"
      then have "Suc k < length (x # B)" by simp
      with Cons.prems(4) have "t + (i + Suc k) * second \<notin> fst ` set r" by blast
      moreover have "i * second < (Suc i + k) * second"
        by (rule mult_less_mono1) (use pos in simp_all)
      then have "t + (Suc i + k) * second \<noteq> t + i * second" by simp
      ultimately show "t + (Suc i + k) * second \<notin> fst ` set r1"
        using r1 n by simp
    qed
    from Cons.prems(5) Suc have d: "k' < length B" by simp
    from Cons.IH[OF l a b c d] Suc show ?thesis by simp
  qed
qed

text \<open>
  Claim C7 (a cluster of equal instants), as the code has it.  Let \<open>N\<close> files share
  the instant \<open>t\<close>, and let \<open>earlier\<close> be the dictionary when their turn comes, that is
  after the files with an instant before \<open>t\<close>.  If none of \<open>t\<close>, \<open>t\<close> + 1 s, ...,
  \<open>t\<close> + (\<open>N\<close> - 1) s is assigned in \<open>earlier\<close>, the \<open>k\<close>-th file of the cluster, in the
  order of the input mapping, is assigned \<open>t\<close> + \<open>k\<close> s, flagged exactly when \<open>k\<close> is
  not 0.
\<close>

theorem equal_instant_cluster:
  assumes "assign_instants m = Inr renamings"
    and "for_loop (filter (\<lambda>p. snd p < t) (sort_key snd m)) [] = Inr earlier"
    and "\<forall>k<length (filter (\<lambda>p. snd p = t) m). t + k * second \<notin> fst ` set earlier"
    and "k < length (filter (\<lambda>p. snd p = t) m)"
  shows "(t + k * second, (fst (filter (\<lambda>p. snd p = t) m ! k), k \<noteq> 0)) \<in> set renamings"
proof -
  let ?S = "sort_key snd m"
  let ?A = "filter (\<lambda>p. snd p < t) ?S"
  let ?B = "filter (\<lambda>p. snd p = t) m"
  let ?C = "filter (\<lambda>p. t < snd p) ?S"
  have "sorted (map snd ?S)" by simp
  then have "?S = ?A @ filter (\<lambda>p. snd p = t) ?S @ ?C" by (rule sorted_split3)
  moreover have "filter (\<lambda>p. snd p = t) ?S = ?B" by (rule sort_key_stable)
  ultimately have S: "?S = ?A @ ?B @ ?C" by simp
  from assms(1) have "for_loop ?S [] = Inr renamings"
    by (simp add: assign_instants_def)
  then have "for_loop (?A @ ?B @ ?C) [] = Inr renamings"
    using S by simp
  with assms(2) obtain r2 where b: "for_loop ?B earlier = Inr r2"
    and c: "for_loop ?C r2 = Inr renamings"
    by (auto simp: for_loop_append split: sum.splits)
  have "\<forall>p\<in>set ?B. snd p = t" by simp
  moreover have "\<forall>j<(0::nat). t + j * second \<in> fst ` set earlier" by simp
  moreover have "\<forall>k<length ?B. t + (0 + k) * second \<notin> fst ` set earlier"
    using assms(3) by simp
  ultimately have "(t + (0 + k) * second, (fst (?B ! k), 0 + k \<noteq> 0)) \<in> set r2"
    using assms(4) by (rule cluster_loop[OF b])
  with for_loop_mono[OF c] show ?thesis by auto
qed

theorem equal_instant_cluster_witness:
  "assign_instants [(''x.jpg'', 0), (''a.jpg'', 1000000), (''b.jpg'', 1000000)]
     = Inr [(0, (''x.jpg'', False)), (1000000, (''a.jpg'', False)), (2000000, (''b.jpg'', True))]
   \<and> for_loop (filter (\<lambda>p. snd p < 1000000)
                  (sort_key snd [(''x.jpg'', 0), (''a.jpg'', 1000000), (''b.jpg'', 1000000)])) []
       = Inr [(0, (''x.jpg'', False))]
   \<and> (1::nat) < length (filter (\<lambda>p. snd p = 1000000)
                           [(''x.jpg'', 0::nat), (''a.jpg'', 1000000), (''b.jpg'', 1000000)])
   \<and> (1000000 + 1 * second,
        (fst (filter (\<lambda>p. snd p = 1000000)
                [(''x.jpg'', 0::nat), (''a.jpg'', 1000000), (''b.jpg'', 1000000)] ! 1), (1::nat) \<noteq> 0))
       \<in> set [(0, (''x.jpg'', False)), (1000000, (''a.jpg'', False)), (2000000, (''b.jpg'', True))]"
proof -
  have h1: "assign_instants [(''x.jpg'', 0), (''a.jpg'', 1000000), (''b.jpg'', 1000000)]
     = Inr [(0, (''x.jpg'', False)), (1000000, (''a.jpg'', False)), (2000000, (''b.jpg'', True))]"
    by (simp add: plan_simps time_simps)
  have h2: "for_loop (filter (\<lambda>p. snd p < 1000000)
                  (sort_key snd [(''x.jpg'', 0), (''a.jpg'', 1000000), (''b.jpg'', 1000000)])) []
       = Inr [(0, (''x.jpg'', False))]"
    by (simp add: plan_simps time_simps)
  have h3: "\<forall>k<length (filter (\<lambda>p. snd p = 1000000)
                          [(''x.jpg'', 0::nat), (''a.jpg'', 1000000), (''b.jpg'', 1000000)]).
              1000000 + k * second \<notin> fst ` set [(0::nat, (''x.jpg'', False))]"
    by (simp add: second_def)
  have h4: "(1::nat) < length (filter (\<lambda>p. snd p = 1000000)
                           [(''x.jpg'', 0::nat), (''a.jpg'', 1000000), (''b.jpg'', 1000000)])"
    by simp
  show ?thesis
    by (rule conjI[OF h1 conjI[OF h2 conjI[OF h4 equal_instant_cluster[OF h1 h2 h3 h4]]]])
qed

theorem displaced_cluster_counterexample:
  "assign_instants
     [(''x.jpg'', 0), (''y.jpg'', 0), (''a.jpg'', 1000000), (''b.jpg'', 1000000)]
     = Inr [(0, (''x.jpg'', False)), (1000000, (''y.jpg'', True)),
            (2000000, (''a.jpg'', True)), (3000000, (''b.jpg'', True))]
   \<and> (1000000, (''a.jpg'', False))
       \<notin> set [(0::nat, (''x.jpg'', False)), (1000000, (''y.jpg'', True)),
              (2000000, (''a.jpg'', True)), (3000000, (''b.jpg'', True))]"
  by (simp add: plan_simps time_simps)

end
